theory Spec2Isabelle
  imports Main "HOL-Library.Sublist"
begin

section \<open>JavaScript strings\<close>

text \<open>
  The library is JavaScript. Strings are modelled as \<^typ>\<open>string\<close>, one
  \<^typ>\<open>char\<close> for each code unit, which covers the locale tags, paths and messages
  the properties below are about; the only string operations of the source are
  \<^verbatim>\<open>+\<close> (concatenation) and \<^verbatim>\<open>String.prototype.replace\<close> with a string
  pattern, which replaces the first occurrence of the pattern only and expands the
  \<^verbatim>\<open>$\<close> patterns of the replacement text.
\<close>

text \<open>\<^verbatim>\<open>s.indexOf(p)\<close>: the position of the first occurrence of \<open>p\<close> in \<open>s\<close>.\<close>

fun js_indexOf :: "string \<Rightarrow> string \<Rightarrow> nat option" where
  "js_indexOf [] p = (if p = [] then Some 0 else None)"
| "js_indexOf (c # s) p =
     (if prefix p (c # s) then Some 0 else map_option Suc (js_indexOf s p))"

text \<open>
  The abstract operation GetSubstitution of ECMAScript for a string pattern (no capture
  groups): \<^verbatim>\<open>$$\<close> is a dollar sign, \<^verbatim>\<open>$&\<close> the matched text,
  \<^verbatim>\<open>$`\<close> the text before the match, \<^verbatim>\<open>$'\<close> the text after it; every other
  character, also a \<^verbatim>\<open>$\<close> followed by anything else, stands for itself.
\<close>

fun get_substitution :: "string \<Rightarrow> string \<Rightarrow> string \<Rightarrow> string \<Rightarrow> string" where
  "get_substitution matched leading trailing [] = []"
| "get_substitution matched leading trailing [c] = [c]"
| "get_substitution matched leading trailing (c # d # r) =
     (if c = CHR ''$'' \<and> d = CHR ''$'' then CHR ''$'' # get_substitution matched leading trailing r
      else if c = CHR ''$'' \<and> d = CHR ''&'' then matched @ get_substitution matched leading trailing r
      else if c = CHR ''$'' \<and> d = CHR 0x60 then leading @ get_substitution matched leading trailing r
      else if c = CHR ''$'' \<and> d = CHR 0x27 then trailing @ get_substitution matched leading trailing r
      else c # get_substitution matched leading trailing (d # r))"

text \<open>\<^verbatim>\<open>s.replace(p, r)\<close> for strings \<open>p\<close> and \<open>r\<close>.\<close>

definition js_replace :: "string \<Rightarrow> string \<Rightarrow> string \<Rightarrow> string" where
  "js_replace s p r =
     (case js_indexOf s p of
        None \<Rightarrow> s
      | Some i \<Rightarrow>
          (let leading = take i s; trailing = drop (i + length p) s
           in leading @ get_substitution p leading trailing r @ trailing))"

section \<open>Resource fetcher: the resolved URL\<close>

text \<open>
  Lines 12 and 13 of \<^verbatim>\<open>fetch_resource\<close>:
  \<^verbatim>\<open>locale = locale.replace("-", "_"); const url = resourceId.replace("{locale}", locale);\<close>
\<close>

definition resource_url :: "string \<Rightarrow> string \<Rightarrow> string" where
  "resource_url locale resourceId =
     js_replace resourceId ''{locale}'' (js_replace locale ''-'' ''_'')"

section \<open>Values, errors and the store\<close>

text \<open>
  An \<^verbatim>\<open>Error\<close> object, with \<^verbatim>\<open>Error.prototype.toString\<close>.
\<close>

record jserror =
  name :: string
  message :: string

definition error_toString :: "jserror \<Rightarrow> string" where
  "error_toString e =
     (if name e = [] then message e
      else if message e = [] then name e
      else name e @ '': '' @ message e)"

text \<open>\<^verbatim>\<open>Array.prototype.join\<close> on the strings of the elements.\<close>

fun join :: "string \<Rightarrow> string list \<Rightarrow> string" where
  "join sep [] = []"
| "join sep [x] = x"
| "join sep (x # y # ys) = x @ sep @ join sep (y # ys)"

text \<open>
  The error containers are objects \<^verbatim>\<open>{entries: []}\<close> that are shared between
  \<^verbatim>\<open>init_localization\<close>, the generator closures and the caller, and the value of
  \<^verbatim>\<open>entries\<close> is at first a reference to an array object. The store keeps the array
  objects and the containers apart from the values that refer to them: \<open>arrays w a\<close>
  is the content of the array object at address \<open>a\<close>, \<open>objects w c\<close> the value of
  the \<^verbatim>\<open>entries\<close> property of the container at address \<open>c\<close>.
\<close>

type_synonym addr = nat

datatype jsvalue = Undefined | Str string | Ref addr

datatype dom_call = ConnectRoot | TranslateRoots

record world =
  arrays :: "addr \<Rightarrow> jserror list"
  objects :: "addr \<Rightarrow> jsvalue"
  next_addr :: addr
  fetched :: "string list"
  console :: "string list"
  dom_calls :: "dom_call list"

text \<open>
  \<open>fetched\<close> lists the URLs passed to \<^verbatim>\<open>fetch\<close>, \<open>console\<close> the lines written by
  \<^verbatim>\<open>console.log\<close>, \<open>dom_calls\<close> the calls made on the DOM translator, each oldest
  first.
\<close>

definition new_array :: "jserror list \<Rightarrow> world \<Rightarrow> addr \<times> world" where
  "new_array es w =
     (next_addr w, w\<lparr>arrays := (arrays w)(next_addr w := es), next_addr := Suc (next_addr w)\<rparr>)"

definition new_object :: "jsvalue \<Rightarrow> world \<Rightarrow> addr \<times> world" where
  "new_object v w =
     (next_addr w, w\<lparr>objects := (objects w)(next_addr w := v), next_addr := Suc (next_addr w)\<rparr>)"

text \<open>
  The string of a value, as the operator \<^verbatim>\<open>+\<close> takes it: an array is joined with
  commas (\<^verbatim>\<open>Array.prototype.toString\<close>).
\<close>

definition to_string :: "world \<Rightarrow> jsvalue \<Rightarrow> string" where
  "to_string w v =
     (case v of
        Undefined \<Rightarrow> ''undefined''
      | Str s \<Rightarrow> s
      | Ref a \<Rightarrow> join '','' (map error_toString (arrays w a)))"

section \<open>The network and the Fluent engine\<close>

text \<open>
  \<^verbatim>\<open>fetch\<close> is the browser's: the promise it returns is rejected on a network failure
  and fulfilled with a response for every HTTP status; reading the body of the response
  (\<^verbatim>\<open>response.text()\<close>) can be rejected too. The network is a parameter of the model.
\<close>

datatype response = Response (status: nat) (body_text: "jserror + string")

type_synonym network = "string \<Rightarrow> jserror + response"

text \<open>
  \<^verbatim>\<open>FluentResource\<close> and \<^verbatim>\<open>FluentBundle\<close> belong to the Fluent library. A
  resource is known by the text it was parsed from, a bundle by its locale and the
  resources added to it; the errors \<^verbatim>\<open>addResource\<close> returns are a parameter of the
  model.
\<close>

datatype resource = FluentResource string

datatype fluent_bundle = FluentBundle (bundle_locale: string) (bundle_resources: "resource list")

type_synonym engine = "resource \<Rightarrow> jserror list"

section \<open>Fetching a resource and building a bundle\<close>

text \<open>
  \<^verbatim>\<open>fetch_resource(locale, resourceId)\<close>. The resource id is \<^verbatim>\<open>resourceIds[0]\<close> of
  the caller, \<^verbatim>\<open>undefined\<close> (here \<open>None\<close>) for an empty array, on which
  \<^verbatim>\<open>resourceId.replace\<close> throws before anything is fetched.
\<close>

definition fetch_resource ::
  "network \<Rightarrow> string \<Rightarrow> string option \<Rightarrow> world \<Rightarrow> (jserror + resource) \<times> world" where
  "fetch_resource net locale resourceId w =
     (case resourceId of
        None \<Rightarrow>
          (Inl \<lparr>name = ''TypeError'',
                message = ''Cannot read properties of undefined''\<rparr>, w)
      | Some rid \<Rightarrow>
          (let url = resource_url locale rid;
               w1 = w\<lparr>fetched := fetched w @ [url]\<rparr>
           in case net url of
                Inl e \<Rightarrow> (Inl e, w1)
              | Inr response \<Rightarrow>
                  (case body_text response of
                     Inl e \<Rightarrow> (Inl e, w1)
                   | Inr t \<Rightarrow> (Inr (FluentResource t), w1))))"

text \<open>
  \<^verbatim>\<open>create_bundle(locale, resourceId, errors)\<close>, where \<open>errors\<close> is the address of the
  container. \<^verbatim>\<open>errors.entries += bundle.addResource(resource)\<close> adds an array to
  the value of \<^verbatim>\<open>entries\<close> with the operator \<^verbatim>\<open>+\<close>: both operands are turned
  into strings and concatenated, and the string is assigned to the property. The loop
  that follows iterates that string, one character at a time.
\<close>

definition create_bundle ::
  "network \<Rightarrow> engine \<Rightarrow> string \<Rightarrow> string option \<Rightarrow> addr \<Rightarrow> world \<Rightarrow> (jserror + fluent_bundle) \<times> world" where
  "create_bundle net addResource locale resourceId errors w =
     (case fetch_resource net locale resourceId w of
        (Inl e, w1) \<Rightarrow> (Inl e, w1)
      | (Inr resource, w1) \<Rightarrow>
          (let bundle = FluentBundle locale [resource];
               entries = to_string w1 (objects w1 errors)
                         @ join '','' (map error_toString (addResource resource));
               w2 = w1\<lparr>objects := (objects w1)(errors := Str entries)\<rparr>;
               w3 = w2\<lparr>console := console w2
                      @ map (\<lambda>entry. ''Error creating bundle for locale '' @ locale @ [entry])
                          entries\<rparr>
           in (Inr bundle, w3)))"

section \<open>The bundle generator\<close>

text \<open>
  \<^verbatim>\<open>create_bundle_generator(locale, fallback_locales, errors)\<close> returns an async
  generator function; calling it with \<open>resourceIds\<close> makes a generator object, which
  runs no code of the body before the first request. A generator is suspended at its
  start, suspended at the \<^verbatim>\<open>yield\<close> inside the loop with the index of the fallback
  entry the loop visits next, or completed; an exception that leaves the body completes
  it.
\<close>

datatype gen_state = SuspendedStart | SuspendedYield nat | Completed

record generator =
  gen_locale :: string
  gen_fallback_locales :: "string list"
  gen_errors :: addr
  gen_resourceIds :: "string list"
  gen_state :: gen_state

definition create_bundle_generator ::
  "string \<Rightarrow> string list \<Rightarrow> addr \<Rightarrow> string list \<Rightarrow> generator" where
  "create_bundle_generator locale fallback_locales errors resourceIds =
     \<lparr>gen_locale = locale, gen_fallback_locales = fallback_locales, gen_errors = errors,
      gen_resourceIds = resourceIds, gen_state = SuspendedStart\<rparr>"

text \<open>What a request for the next element settles to.\<close>

datatype iter_result = Yield fluent_bundle | Done | Throw jserror

text \<open>\<^verbatim>\<open>resourceIds[0]\<close>\<close>

definition first_id :: "string list \<Rightarrow> string option" where
  "first_id resourceIds = (case resourceIds of [] \<Rightarrow> None | rid # _ \<Rightarrow> Some rid)"

text \<open>One request, \<^verbatim>\<open>generator.next()\<close>, run until it settles.\<close>

definition gen_next ::
  "network \<Rightarrow> engine \<Rightarrow> generator \<Rightarrow> world \<Rightarrow> iter_result \<times> generator \<times> world" where
  "gen_next net addResource g w =
     (case gen_state g of
        SuspendedStart \<Rightarrow>
          (case create_bundle net addResource (gen_locale g) (first_id (gen_resourceIds g))
                  (gen_errors g) w of
             (Inl e, w1) \<Rightarrow> (Throw e, g\<lparr>gen_state := Completed\<rparr>, w1)
           | (Inr b, w1) \<Rightarrow> (Yield b, g\<lparr>gen_state := SuspendedYield 0\<rparr>, w1))
      | SuspendedYield i \<Rightarrow>
          (if i < length (gen_fallback_locales g) then
             (case create_bundle net addResource (gen_fallback_locales g ! i)
                     (first_id (gen_resourceIds g)) (gen_errors g) w of
                (Inl e, w1) \<Rightarrow> (Throw e, g\<lparr>gen_state := Completed\<rparr>, w1)
              | (Inr b, w1) \<Rightarrow> (Yield b, g\<lparr>gen_state := SuspendedYield (Suc i)\<rparr>, w1))
           else (Done, g\<lparr>gen_state := Completed\<rparr>, w))
      | Completed \<Rightarrow> (Done, g, w))"

text \<open>A consumer that makes \<open>n\<close> requests, one after the other.\<close>

fun drive ::
  "network \<Rightarrow> engine \<Rightarrow> nat \<Rightarrow> generator \<Rightarrow> world \<Rightarrow> iter_result list \<times> generator \<times> world" where
  "drive net addResource 0 g w = ([], g, w)"
| "drive net addResource (Suc n) g w =
     (case gen_next net addResource g w of
        (r, g1, w1) \<Rightarrow>
          (case drive net addResource n g1 w1 of (rs, g2, w2) \<Rightarrow> (r # rs, g2, w2)))"

section \<open>The entry points\<close>

text \<open>
  \<^verbatim>\<open>get_user_locales(fallback)\<close>. \<^verbatim>\<open>getUserLocales\<close> is the library's function,
  a parameter here, called with an options object or with no argument (\<open>None\<close>); an
  omitted \<open>fallback\<close> is \<open>None\<close>, and \<^verbatim>\<open>if (fallback)\<close> is false for it and for the
  empty string.
\<close>

record options =
  fallbackLocale :: string
  useFallbackLocale :: bool

definition truthy :: "string option \<Rightarrow> bool" where
  "truthy v = (case v of None \<Rightarrow> False | Some s \<Rightarrow> s \<noteq> [])"

definition get_user_locales :: "(options option \<Rightarrow> 'r) \<Rightarrow> string option \<Rightarrow> 'r" where
  "get_user_locales getUserLocales fallback =
     (if truthy fallback then
        getUserLocales (Some \<lparr>fallbackLocale = the fallback, useFallbackLocale = True\<rparr>)
      else getUserLocales None)"

text \<open>
  \<^verbatim>\<open>init_localization(resource_path_template, locale, fallback_locales)\<close>. A
  \<^verbatim>\<open>Localization\<close> or \<^verbatim>\<open>DOMLocalization\<close> of the Fluent library is known by
  the resource ids and the generator function it was constructed with. The Fluent
  library may make its first requests to a generator inside the constructors and inside
  \<^verbatim>\<open>translateRoots\<close>, but all code of a generator body that follows the first
  \<^verbatim>\<open>await\<close> runs after \<^verbatim>\<open>init_localization\<close> has returned: no bundle is
  constructed, and no container is written to, before the result is built. The requests
  are therefore modelled as steps that follow the call.
\<close>

record localization =
  loc_resourceIds :: "string list"
  loc_generateBundles :: "string list \<Rightarrow> generator"

record init_result =
  dom_l10n :: localization
  dom_errors :: jsvalue
  main :: localization
  main_errors :: jsvalue

definition init_localization ::
  "string \<Rightarrow> string \<Rightarrow> string list \<Rightarrow> world \<Rightarrow> init_result \<times> world" where
  "init_localization resource_path_template locale fallback_locales w =
     (let (a1, w1) = new_array [] w;
          (dom_errors_obj, w2) = new_object (Ref a1) w1;
          (a2, w3) = new_array [] w2;
          (main_errors_obj, w4) = new_object (Ref a2) w3;
          dom_bundle_gen = create_bundle_generator locale fallback_locales dom_errors_obj;
          loc_bundle_gen = create_bundle_generator locale fallback_locales main_errors_obj;
          dom_loc = \<lparr>loc_resourceIds = [resource_path_template],
                     loc_generateBundles = dom_bundle_gen\<rparr>;
          w5 = w4\<lparr>dom_calls := dom_calls w4 @ [ConnectRoot, TranslateRoots]\<rparr>;
          main_loc = \<lparr>loc_resourceIds = [resource_path_template],
                      loc_generateBundles = loc_bundle_gen\<rparr>
      in (\<lparr>dom_l10n = dom_loc, dom_errors = objects w5 dom_errors_obj,
           main = main_loc, main_errors = objects w5 main_errors_obj\<rparr>, w5))"

text \<open>The generator a localization object iterates: its function, applied to its ids.\<close>

definition bundles :: "localization \<Rightarrow> generator" where
  "bundles l = loc_generateBundles l (loc_resourceIds l)"

section \<open>Locale tags\<close>

text \<open>
  The source documents \<open>locale\<close> as an IETF language tag such as \<^verbatim>\<open>en-US\<close>, and the
  library accepts the underscore form as well: a locale tag is made of letters, digits,
  hyphens and underscores.
\<close>

definition tag_char :: "char \<Rightarrow> bool" where
  "tag_char c =
     (c \<in> set ''abcdefghijklmnopqrstuvwxyzABCDEFGHIJKLMNOPQRSTUVWXYZ0123456789-_'')"

definition locale_tag :: "string \<Rightarrow> bool" where
  "locale_tag s = list_all tag_char s"

section \<open>Consumers and runs\<close>

text \<open>What a fetch and the read of its body settle to: a rejection or the text.\<close>

definition fetch_outcome :: "network \<Rightarrow> string \<Rightarrow> jserror + string" where
  "fetch_outcome net url = (case net url of Inl e \<Rightarrow> Inl e | Inr r \<Rightarrow> body_text r)"

text \<open>The locale whose bundle the next request constructs, if it constructs one.\<close>

definition next_locale :: "generator \<Rightarrow> string option" where
  "next_locale g =
     (case gen_state g of
        SuspendedStart \<Rightarrow> Some (gen_locale g)
      | SuspendedYield i \<Rightarrow>
          (if i < length (gen_fallback_locales g) then Some (gen_fallback_locales g ! i)
           else None)
      | Completed \<Rightarrow> None)"

text \<open>
  Two consumers, one for each generator, whose requests interleave as a schedule says:
  \<open>True\<close> is a request to the first generator, \<open>False\<close> one to the second.
\<close>

fun drive_both ::
  "network \<Rightarrow> engine \<Rightarrow> bool list \<Rightarrow> generator \<Rightarrow> generator \<Rightarrow> world
     \<Rightarrow> generator \<times> generator \<times> world" where
  "drive_both net addResource [] g1 g2 w = (g1, g2, w)"
| "drive_both net addResource (first # schedule) g1 g2 w =
     (if first then
        (case gen_next net addResource g1 w of
           (r, g1', w') \<Rightarrow> drive_both net addResource schedule g1' g2 w')
      else
        (case gen_next net addResource g2 w of
           (r, g2', w') \<Rightarrow> drive_both net addResource schedule g1 g2' w'))"

text \<open>
  The bundle a locale stands for when its resource can be fetched: the tag as given, and
  the text served at the locale's URL.
\<close>

definition fetch_ok :: "network \<Rightarrow> string \<Rightarrow> bool" where
  "fetch_ok net url = (case fetch_outcome net url of Inl e \<Rightarrow> False | Inr t \<Rightarrow> True)"

definition bundle_of :: "network \<Rightarrow> string \<Rightarrow> string \<Rightarrow> fluent_bundle" where
  "bundle_of net rid l =
     FluentBundle l
       [FluentResource (case fetch_outcome net (resource_url l rid) of
                          Inl e \<Rightarrow> [] | Inr t \<Rightarrow> t)]"

text \<open>The state of a generator after it has yielded an element.\<close>

definition advance :: "gen_state \<Rightarrow> gen_state" where
  "advance s =
     (case s of
        SuspendedStart \<Rightarrow> SuspendedYield 0
      | SuspendedYield i \<Rightarrow> SuspendedYield (Suc i)
      | Completed \<Rightarrow> Completed)"

text \<open>The locales whose bundles a generator has still to construct, in order.\<close>

definition remaining :: "generator \<Rightarrow> string list" where
  "remaining g =
     (case gen_state g of
        SuspendedStart \<Rightarrow> gen_locale g # gen_fallback_locales g
      | SuspendedYield i \<Rightarrow> drop i (gen_fallback_locales g)
      | Completed \<Rightarrow> [])"

text \<open>
  What the request at the first locale of a list settles to when the fetch for that
  locale is rejected; nothing for an empty list or a fetch that succeeds.
\<close>

definition rejection :: "network \<Rightarrow> string \<Rightarrow> string list \<Rightarrow> iter_result list" where
  "rejection net rid ls =
     (case ls of
        [] \<Rightarrow> []
      | l # _ \<Rightarrow>
          (case fetch_outcome net (resource_url l rid) of
             Inl e \<Rightarrow> [Throw e]
           | Inr t \<Rightarrow> []))"

text \<open>Concrete surroundings for the examples.\<close>

definition empty_world :: world where
  "empty_world =
     \<lparr>arrays = (\<lambda>a. []), objects = (\<lambda>c. Undefined), next_addr = 0,
      fetched = [], console = [], dom_calls = []\<rparr>"

definition failed_to_fetch :: jserror where
  "failed_to_fetch = \<lparr>name = ''TypeError'', message = ''Failed to fetch''\<rparr>"

text \<open>A network that serves the listed URLs and is unreachable for every other.\<close>

definition serve :: "(string \<times> response) list \<Rightarrow> network" where
  "serve table url =
     (case map_of table url of Some r \<Rightarrow> Inr r | None \<Rightarrow> Inl failed_to_fetch)"

text \<open>An engine that reports the listed errors for the listed resources.\<close>

definition report :: "(resource \<times> jserror list) list \<Rightarrow> engine" where
  "report table r = (case map_of table r of Some es \<Rightarrow> es | None \<Rightarrow> [])"

text \<open>The error \<^verbatim>\<open>addResource\<close> returns for a message that is defined twice.\<close>

definition override_error :: "string \<Rightarrow> jserror" where
  "override_error ident =
     \<lparr>name = ''Error'', message = ''Attempt to override an existing message: '' @ ident\<rparr>"

text \<open>
  Two resources, for \<^verbatim>\<open>es-MX\<close> and \<^verbatim>\<open>en-US\<close>, each with a well-formed message
  and one entry the engine reports an error for.
\<close>

definition example_net :: network where
  "example_net =
     serve [(''loc/es_MX/main.ftl'', Response 200 (Inr ''hola = Hola'')),
            (''loc/en_US/main.ftl'', Response 200 (Inr ''hello = Hello''))]"

definition example_engine :: engine where
  "example_engine =
     report [(FluentResource ''hola = Hola'', [override_error ''hola'']),
             (FluentResource ''hello = Hello'', [override_error ''hello''])]"

definition example_init :: "init_result \<times> world" where
  "example_init = init_localization ''loc/{locale}/main.ftl'' ''es-MX'' [''en-US''] empty_world"

section \<open>Properties of the replacement\<close>

lemma prefix_append_short:
  "prefix p (u @ v) \<Longrightarrow> length p \<le> length u \<Longrightarrow> prefix p u"
  by (auto simp: prefix_append)

text \<open>
  An occurrence of \<open>p\<close> that starts before position \<open>length a\<close> of \<open>a @ p @ b\<close> lies
  inside \<open>a @ butlast p\<close>; when there is none, the first occurrence is the one shown.
\<close>

lemma js_indexOf_first:
  assumes "p \<noteq> []" and "\<not> sublist p (a @ butlast p)"
  shows "js_indexOf (a @ p @ b) p = Some (length a)"
  using assms
proof (induction a)
  case Nil
  then show ?case by (cases p) auto
next
  case (Cons x a)
  have split_p: "p @ b = butlast p @ [last p] @ b"
    using Cons.prems(1) by (metis append.assoc append_butlast_last_id)
  have "\<not> prefix p (x # a @ p @ b)"
  proof
    assume "prefix p (x # a @ p @ b)"
    then have "prefix p ((x # a @ butlast p) @ ([last p] @ b))"
      using split_p by simp
    moreover have "length p \<le> length (x # a @ butlast p)"
      using Cons.prems(1) by (cases p) auto
    ultimately have "prefix p (x # a @ butlast p)"
      by (rule prefix_append_short)
    then show False using Cons.prems(2) by auto
  qed
  moreover have "\<not> sublist p (a @ butlast p)"
    using Cons.prems(2) by (auto simp: sublist_Cons_right)
  ultimately show ?case using Cons by simp
qed

lemma js_indexOf_absent: "\<not> sublist p s \<Longrightarrow> js_indexOf s p = None"
  by (induction s) (auto simp: sublist_Cons_right)

lemma get_substitution_plain:
  "CHR ''$'' \<notin> set r \<Longrightarrow> get_substitution m l t r = r"
  by (induction m l t r rule: get_substitution.induct) auto

lemma js_replace_at_first:
  assumes "p \<noteq> []" and "\<not> sublist p (a @ butlast p)"
  shows "js_replace (a @ p @ b) p r = a @ get_substitution p a b r @ b"
  using assms by (simp add: js_replace_def js_indexOf_first Let_def)

lemma js_replace_first:
  assumes "p \<noteq> []" and "\<not> sublist p (a @ butlast p)" and "CHR ''$'' \<notin> set r"
  shows "js_replace (a @ p @ b) p r = a @ r @ b"
  using assms by (simp add: js_replace_at_first get_substitution_plain)

text \<open>A string without the pattern is returned as it is.\<close>

lemma js_replace_absent: "\<not> sublist p s \<Longrightarrow> js_replace s p r = s"
  by (simp add: js_replace_def js_indexOf_absent)

text \<open>Every string that contains \<open>p\<close> splits at the first occurrence of \<open>p\<close>.\<close>

lemma first_occurrence_exists:
  assumes "p \<noteq> []" and "sublist p s"
  shows "\<exists>a b. s = a @ p @ b \<and> \<not> sublist p (a @ butlast p)"
  using assms(2)
proof (induction s)
  case Nil
  with assms(1) show ?case by simp
next
  case (Cons x s)
  show ?case
  proof (cases "prefix p (x # s)")
    case True
    then obtain b where "x # s = [] @ p @ b"
      by (auto simp: prefix_def)
    moreover have "\<not> sublist p ([] @ butlast p)"
      using assms(1) sublist_length_le [of p "butlast p"] by (cases p) auto
    ultimately show ?thesis by blast
  next
    case False
    with Cons.prems have "sublist p s"
      by (simp add: sublist_Cons_right)
    then obtain a b where ab: "s = a @ p @ b" "\<not> sublist p (a @ butlast p)"
      using Cons.IH by blast
    have "\<not> prefix p (x # a @ butlast p)"
    proof
      assume "prefix p (x # a @ butlast p)"
      then have "prefix p ((x # a @ butlast p) @ ([last p] @ b))"
        using prefix_prefix by blast
      moreover have "(x # a @ butlast p) @ ([last p] @ b) = x # s"
        using ab(1) assms(1) by (metis append.assoc append_Cons append_butlast_last_id)
      ultimately show False using False by simp
    qed
    with ab(2) have "\<not> sublist p ((x # a) @ butlast p)"
      by (simp add: sublist_Cons_right)
    moreover have "x # s = (x # a) @ p @ b"
      using ab(1) by simp
    ultimately show ?thesis by blast
  qed
qed

lemma tag_char_not_dollar: "\<not> tag_char (CHR ''$'')"
  by (simp add: tag_char_def)

lemma locale_tag_no_dollar: "locale_tag s \<Longrightarrow> CHR ''$'' \<notin> set s"
  using tag_char_not_dollar by (auto simp: locale_tag_def list_all_iff)

lemma normalized_no_dollar:
  assumes "CHR ''$'' \<notin> set locale"
  shows "CHR ''$'' \<notin> set (js_replace locale ''-'' ''_'')"
proof (cases "js_indexOf locale ''-''")
  case None
  then show ?thesis using assms by (simp add: js_replace_def)
next
  case (Some i)
  have "set (take i locale) \<subseteq> set locale" "set (drop (i + 1) locale) \<subseteq> set locale"
    by (auto dest: in_set_takeD in_set_dropD)
  then show ?thesis using assms Some by (auto simp: js_replace_def Let_def)
qed

lemma normalize_first_hyphen:
  assumes "CHR ''-'' \<notin> set pre"
  shows "js_replace (pre @ ''-'' @ post) ''-'' ''_'' = pre @ ''_'' @ post"
proof -
  have "\<not> sublist ''-'' (pre @ butlast ''-'')"
    using assms by (auto simp: sublist_def)
  then show ?thesis
    using js_replace_first [of "''-''" pre "''_''" post] by simp
qed

section \<open>Properties of a bundle construction and of a request\<close>


lemma fetch_resource_reject:
  "fetch_outcome net (resource_url locale rid) = Inl e \<Longrightarrow>
   fetch_resource net locale (Some rid) w
     = (Inl e, w\<lparr>fetched := fetched w @ [resource_url locale rid]\<rparr>)"
  by (auto simp: fetch_resource_def fetch_outcome_def Let_def split: sum.splits)

lemma fetch_resource_text:
  "fetch_outcome net (resource_url locale rid) = Inr t \<Longrightarrow>
   fetch_resource net locale (Some rid) w
     = (Inr (FluentResource t), w\<lparr>fetched := fetched w @ [resource_url locale rid]\<rparr>)"
  by (auto simp: fetch_resource_def fetch_outcome_def Let_def split: sum.splits)

lemma create_bundle_reject:
  "fetch_outcome net (resource_url locale rid) = Inl e \<Longrightarrow>
   create_bundle net addResource locale (Some rid) errors w
     = (Inl e, w\<lparr>fetched := fetched w @ [resource_url locale rid]\<rparr>)"
  by (simp add: create_bundle_def fetch_resource_reject)

lemma to_string_arrays: "arrays w = arrays v \<Longrightarrow> to_string w x = to_string v x"
  by (cases x) (simp_all add: to_string_def)

lemma create_bundle_text:
  assumes "fetch_outcome net (resource_url locale rid) = Inr t"
  shows "\<exists>w'. create_bundle net addResource locale (Some rid) errors w
            = (Inr (FluentBundle locale [FluentResource t]), w')
          \<and> fetched w' = fetched w @ [resource_url locale rid]
          \<and> objects w' = (objects w)(errors := Str (to_string w (objects w errors)
                @ join '','' (map error_toString (addResource (FluentResource t)))))"
  using assms
  by (simp add: create_bundle_def fetch_resource_text Let_def
        to_string_arrays [of "w\<lparr>fetched := fetched w @ [resource_url locale rid]\<rparr>" w])

lemma create_bundle_arrays:
  "arrays (snd (create_bundle net addResource locale resourceId errors w)) = arrays w"
  by (auto simp: create_bundle_def fetch_resource_def Let_def split: sum.splits option.splits)

lemma create_bundle_frame:
  "c \<noteq> errors \<Longrightarrow>
   objects (snd (create_bundle net addResource locale resourceId errors w)) c = objects w c"
  by (auto simp: create_bundle_def fetch_resource_def Let_def split: sum.splits option.splits)


lemma first_id_Cons: "first_id (rid # rest) = Some rid"
  by (simp add: first_id_def)

lemma gen_next_reject:
  assumes "next_locale g = Some l" and "gen_resourceIds g = rid # rest"
    and "fetch_outcome net (resource_url l rid) = Inl e"
  shows "gen_next net addResource g w
           = (Throw e, g\<lparr>gen_state := Completed\<rparr>,
              w\<lparr>fetched := fetched w @ [resource_url l rid]\<rparr>)"
  using assms
  by (cases "gen_state g")
     (auto simp: gen_next_def next_locale_def first_id_Cons create_bundle_reject
           split: if_splits)

lemma gen_next_text:
  assumes "next_locale g = Some l" and "gen_resourceIds g = rid # rest"
    and "fetch_outcome net (resource_url l rid) = Inr t"
  shows "\<exists>w'. gen_next net addResource g w
            = (Yield (FluentBundle l [FluentResource t]),
               g\<lparr>gen_state := advance (gen_state g)\<rparr>, w')
          \<and> fetched w' = fetched w @ [resource_url l rid]
          \<and> objects w' = (objects w)(gen_errors g := Str (to_string w (objects w (gen_errors g))
                @ join '','' (map error_toString (addResource (FluentResource t)))))"
proof -
  obtain w' where "create_bundle net addResource l (Some rid) (gen_errors g) w
            = (Inr (FluentBundle l [FluentResource t]), w')"
    and "fetched w' = fetched w @ [resource_url l rid]"
    and "objects w' = (objects w)(gen_errors g := Str (to_string w (objects w (gen_errors g))
                @ join '','' (map error_toString (addResource (FluentResource t)))))"
    using create_bundle_text [OF assms(3)] by blast
  then show ?thesis
    using assms(1,2)
    by (cases "gen_state g")
       (auto simp: gen_next_def next_locale_def first_id_Cons advance_def split: if_splits)
qed

lemma gen_next_completed:
  "gen_state g = Completed \<Longrightarrow> gen_next net addResource g w = (Done, g, w)"
  by (simp add: gen_next_def)

lemma drive_completed:
  "gen_state g = Completed \<Longrightarrow> drive net addResource n g w = (replicate n Done, g, w)"
  by (induction n) (simp_all add: gen_next_completed)

lemma gen_next_exhausted:
  "gen_state g = SuspendedYield i \<Longrightarrow> length (gen_fallback_locales g) \<le> i \<Longrightarrow>
   gen_next net addResource g w = (Done, g\<lparr>gen_state := Completed\<rparr>, w)"
  by (simp add: gen_next_def)

lemma bundle_of_text:
  "fetch_outcome net (resource_url l rid) = Inr t \<Longrightarrow>
   bundle_of net rid l = FluentBundle l [FluentResource t]"
  by (simp add: bundle_of_def)

lemma fetch_ok_text: "fetch_ok net url \<Longrightarrow> \<exists>t. fetch_outcome net url = Inr t"
  by (auto simp: fetch_ok_def split: sum.splits)

lemma drive_Suc_fst:
  "gen_next net addResource g w = (r, g1, w1) \<Longrightarrow>
   fst (drive net addResource (Suc n) g w) = r # fst (drive net addResource n g1 w1)"
  by (simp split: prod.splits)

lemma drive_fallbacks:
  assumes "gen_state g = SuspendedYield i" and "gen_fallback_locales g = fs"
    and "gen_resourceIds g = rid # rest"
    and "\<forall>l \<in> set (drop i fs). fetch_ok net (resource_url l rid)"
    and "m = length fs - i"
  shows "fst (drive net addResource (m + k) g w)
           = map (\<lambda>l. Yield (bundle_of net rid l)) (drop i fs) @ replicate k Done"
  using assms
proof (induction m arbitrary: i g w)
  case 0
  then have "length (gen_fallback_locales g) \<le> i" by simp
  with 0 show ?case
    by (cases k) (simp_all add: gen_next_exhausted drive_completed)
next
  case (Suc m)
  then have i: "i < length fs" by simp
  then have d: "drop i fs = fs ! i # drop (Suc i) fs"
    by (simp add: Cons_nth_drop_Suc)
  obtain t where t: "fetch_outcome net (resource_url (fs ! i) rid) = Inr t"
    using Suc.prems(4) d fetch_ok_text by fastforce
  have nl: "next_locale g = Some (fs ! i)"
    using Suc.prems(1,2) i by (simp add: next_locale_def)
  obtain w' where step: "gen_next net addResource g w
      = (Yield (FluentBundle (fs ! i) [FluentResource t]),
         g\<lparr>gen_state := advance (gen_state g)\<rparr>, w')"
    using gen_next_text [OF nl Suc.prems(3) t] by blast
  let ?g = "g\<lparr>gen_state := advance (gen_state g)\<rparr>"
  have "fst (drive net addResource (m + k) ?g w')
          = map (\<lambda>l. Yield (bundle_of net rid l)) (drop (Suc i) fs) @ replicate k Done"
    using Suc.prems d by (intro Suc.IH) (simp_all add: advance_def)
  then show ?case
    using drive_Suc_fst [OF step, of "m + k"] d bundle_of_text [OF t]
    by (simp del: drive.simps)
qed

lemma next_locale_remaining:
  "next_locale g = (case remaining g of [] \<Rightarrow> None | l # ls \<Rightarrow> Some l)"
  by (cases "gen_state g")
     (auto simp: next_locale_def remaining_def Cons_nth_drop_Suc [symmetric])

lemma remaining_advance:
  "next_locale g = Some l \<Longrightarrow> remaining (g\<lparr>gen_state := advance (gen_state g)\<rparr>) = tl (remaining g)"
  by (cases "gen_state g")
     (auto simp: next_locale_def remaining_def advance_def drop_Suc tl_drop split: if_splits)

text \<open>A request that constructs a bundle issues one fetch, for the locale it is at.\<close>

lemma gen_next_fetches_one:
  assumes "next_locale g = Some l" and "gen_resourceIds g = rid # rest"
  shows "\<exists>r s w'. gen_next net addResource g w = (r, g\<lparr>gen_state := s\<rparr>, w')
           \<and> fetched w' = fetched w @ [resource_url l rid]
           \<and> (s = Completed \<or> s = advance (gen_state g))"
proof (cases "fetch_outcome net (resource_url l rid)")
  case (Inl e)
  show ?thesis
    using gen_next_reject [OF assms Inl, of addResource w] by auto
next
  case (Inr t)
  show ?thesis
    using gen_next_text [OF assms Inr, of addResource w] by blast
qed

lemma gen_next_no_locale:
  assumes "next_locale g = None"
  shows "\<exists>g'. gen_next net addResource g w = (Done, g', w) \<and> gen_state g' = Completed"
  using assms
  by (cases "gen_state g") (auto simp: gen_next_def next_locale_def split: if_splits)

lemma drive_Suc_world:
  "gen_next net addResource g w = (r, g1, w1) \<Longrightarrow>
   snd (snd (drive net addResource (Suc n) g w)) = snd (snd (drive net addResource n g1 w1))"
  by (simp split: prod.splits)

lemma drive_fetched:
  assumes "gen_resourceIds g = rid # rest"
  shows "\<exists>m\<le>n. fetched (snd (snd (drive net addResource n g w)))
           = fetched w @ map (\<lambda>l. resource_url l rid) (take m (remaining g))"
  using assms
proof (induction n arbitrary: g w)
  case 0
  then show ?case by simp
next
  case (Suc n)
  show ?case
  proof (cases "next_locale g")
    case None
    then obtain g' where "gen_next net addResource g w = (Done, g', w)"
      and "gen_state g' = Completed"
      using gen_next_no_locale by blast
    then have "snd (snd (drive net addResource (Suc n) g w)) = w"
      using drive_Suc_world drive_completed by (metis snd_conv)
    then show ?thesis by (intro exI [of _ 0]) simp
  next
    case (Some l)
    then obtain ls where ls: "remaining g = l # ls"
      by (auto simp: next_locale_remaining split: list.splits)
    obtain r s w' where step: "gen_next net addResource g w = (r, g\<lparr>gen_state := s\<rparr>, w')"
      and log: "fetched w' = fetched w @ [resource_url l rid]"
      and s: "s = Completed \<or> s = advance (gen_state g)"
      using gen_next_fetches_one [OF Some Suc.prems] by blast
    let ?g = "g\<lparr>gen_state := s\<rparr>"
    have world: "snd (snd (drive net addResource (Suc n) g w))
                   = snd (snd (drive net addResource n ?g w'))"
      using step by (rule drive_Suc_world)
    from s show ?thesis
    proof
      assume "s = Completed"
      then have "snd (snd (drive net addResource n ?g w')) = w'"
        by (simp add: drive_completed)
      with world log ls show ?thesis
        by (intro exI [of _ 1]) simp
    next
      assume adv: "s = advance (gen_state g)"
      then have "remaining ?g = ls"
        using remaining_advance [OF Some] ls by simp
      moreover have "gen_resourceIds ?g = rid # rest"
        using Suc.prems by simp
      ultimately obtain m where "m \<le> n"
        and "fetched (snd (snd (drive net addResource n ?g w')))
               = fetched w' @ map (\<lambda>l. resource_url l rid) (take m ls)"
        using Suc.IH [of ?g w'] by auto
      with world log ls show ?thesis
        by (intro exI [of _ "Suc m"]) simp
    qed
  qed
qed

text \<open>
  The results of \<open>n\<close> requests, from any state of the generator: the bundles of the
  remaining locales up to the first whose fetch is rejected, that error, and the signal
  of exhaustion from then on.
\<close>

lemma take_padding: "take n (xs @ replicate (Suc n) d) = take n (xs @ replicate n d)"
  by (simp add: min_def del: replicate.simps)

lemma take_Suc_padding: "take (Suc n) (x # replicate (Suc n) d) = x # replicate n d"
  by (simp add: min_def del: replicate.simps)

lemma take_all_padding: "take (Suc n) (replicate (Suc n) d) = d # replicate n d"
  by simp

lemma drive_results:
  assumes "gen_resourceIds g = rid # rest"
  shows "fst (drive net addResource n g w)
           = take n (map (\<lambda>l. Yield (bundle_of net rid l))
                       (takeWhile (\<lambda>l. fetch_ok net (resource_url l rid)) (remaining g))
                     @ rejection net rid
                         (dropWhile (\<lambda>l. fetch_ok net (resource_url l rid)) (remaining g))
                     @ replicate n Done)"
  using assms
proof (induction n arbitrary: g w)
  case 0
  show ?case by simp
next
  case (Suc n)
  show ?case
  proof (cases "next_locale g")
    case None
    then have empty: "remaining g = []"
      by (simp add: next_locale_remaining split: list.splits)
    obtain g' where step: "gen_next net addResource g w = (Done, g', w)"
      and "gen_state g' = Completed"
      using gen_next_no_locale [OF None] by blast
    then have "fst (drive net addResource (Suc n) g w) = Done # replicate n Done"
      using drive_Suc_fst [OF step] by (simp add: drive_completed del: drive.simps)
    then show ?thesis
      using take_all_padding [of n Done]
      by (simp add: empty rejection_def del: drive.simps replicate.simps)
  next
    case (Some l)
    then obtain ls where ls: "remaining g = l # ls"
      by (auto simp: next_locale_remaining split: list.splits)
    show ?thesis
    proof (cases "fetch_outcome net (resource_url l rid)")
      case (Inl e)
      have step: "gen_next net addResource g w
           = (Throw e, g\<lparr>gen_state := Completed\<rparr>,
              w\<lparr>fetched := fetched w @ [resource_url l rid]\<rparr>)"
        using gen_next_reject [OF Some Suc.prems Inl] .
      have "fst (drive net addResource (Suc n) g w) = Throw e # replicate n Done"
        using drive_Suc_fst [OF step] by (simp add: drive_completed del: drive.simps)
      moreover have "\<not> fetch_ok net (resource_url l rid)"
        using Inl by (simp add: fetch_ok_def)
      ultimately show ?thesis
        using Inl take_Suc_padding [of n "Throw e" Done]
        by (simp add: ls rejection_def del: drive.simps replicate.simps)
    next
      case (Inr t)
      obtain w' where step: "gen_next net addResource g w
            = (Yield (FluentBundle l [FluentResource t]),
               g\<lparr>gen_state := advance (gen_state g)\<rparr>, w')"
        using gen_next_text [OF Some Suc.prems Inr] by blast
      let ?g = "g\<lparr>gen_state := advance (gen_state g)\<rparr>"
      have "remaining ?g = ls"
        using remaining_advance [OF Some] ls by simp
      moreover have "gen_resourceIds ?g = rid # rest"
        using Suc.prems by simp
      ultimately have "fst (drive net addResource n ?g w')
           = take n (map (\<lambda>l. Yield (bundle_of net rid l))
                       (takeWhile (\<lambda>l. fetch_ok net (resource_url l rid)) ls)
                     @ rejection net rid
                         (dropWhile (\<lambda>l. fetch_ok net (resource_url l rid)) ls)
                     @ replicate n Done)"
        using Suc.IH [of ?g w'] by simp
      moreover have "fetch_ok net (resource_url l rid)"
        using Inr by (simp add: fetch_ok_def)
      ultimately show ?thesis
        using drive_Suc_fst [OF step, of n] bundle_of_text [OF Inr]
          take_padding [of n "map (\<lambda>l. Yield (bundle_of net rid l))
                       (takeWhile (\<lambda>l. fetch_ok net (resource_url l rid)) ls)
                     @ rejection net rid
                         (dropWhile (\<lambda>l. fetch_ok net (resource_url l rid)) ls)" Done]
        by (simp add: ls del: drive.simps replicate.simps)
    qed
  qed
qed

lemma drive_all_fetched:
  assumes "\<forall>l \<in> set (locale # fallbacks). fetch_ok net (resource_url l rid)"
  shows "fst (drive net addResource (Suc (length fallbacks) + k)
                (create_bundle_generator locale fallbacks errors (rid # rest)) w)
           = map (\<lambda>l. Yield (bundle_of net rid l)) (locale # fallbacks) @ replicate k Done"
proof -
  let ?g = "create_bundle_generator locale fallbacks errors (rid # rest)"
  obtain t where t: "fetch_outcome net (resource_url locale rid) = Inr t"
    using assms fetch_ok_text by fastforce
  have nl: "next_locale ?g = Some locale"
    by (simp add: next_locale_def create_bundle_generator_def)
  have ids: "gen_resourceIds ?g = rid # rest"
    by (simp add: create_bundle_generator_def)
  obtain w' where step: "gen_next net addResource ?g w
      = (Yield (FluentBundle locale [FluentResource t]),
         ?g\<lparr>gen_state := advance (gen_state ?g)\<rparr>, w')"
    using gen_next_text [OF nl ids t] by blast
  have "fst (drive net addResource (length fallbacks - 0 + k)
               (?g\<lparr>gen_state := advance (gen_state ?g)\<rparr>) w')
          = map (\<lambda>l. Yield (bundle_of net rid l)) (drop 0 fallbacks) @ replicate k Done"
    using assms
    by (intro drive_fallbacks [where rest = rest])
       (simp_all add: create_bundle_generator_def advance_def)
  then show ?thesis
    using drive_Suc_fst [OF step, of "length fallbacks + k"] bundle_of_text [OF t]
    by (simp del: drive.simps)
qed

section \<open>Two generators on one store\<close>

lemma create_bundle_agree:
  assumes "arrays w = arrays v" and "objects w errors = objects v errors"
  shows "\<exists>r w' v'. create_bundle net addResource locale resourceId errors w = (r, w')
           \<and> create_bundle net addResource locale resourceId errors v = (r, v')
           \<and> arrays w' = arrays v' \<and> objects w' errors = objects v' errors"
proof (cases resourceId)
  case None
  then show ?thesis
    using assms by (simp add: create_bundle_def fetch_resource_def)
next
  case (Some rid)
  show ?thesis
  proof (cases "fetch_outcome net (resource_url locale rid)")
    case (Inl e)
    then show ?thesis
      using assms Some by (simp add: create_bundle_reject)
  next
    case (Inr t)
    obtain w' where w': "create_bundle net addResource locale (Some rid) errors w
            = (Inr (FluentBundle locale [FluentResource t]), w')"
      "objects w' = (objects w)(errors := Str (to_string w (objects w errors)
                @ join '','' (map error_toString (addResource (FluentResource t)))))"
      using create_bundle_text [OF Inr] by blast
    obtain v' where v': "create_bundle net addResource locale (Some rid) errors v
            = (Inr (FluentBundle locale [FluentResource t]), v')"
      "objects v' = (objects v)(errors := Str (to_string v (objects v errors)
                @ join '','' (map error_toString (addResource (FluentResource t)))))"
      using create_bundle_text [OF Inr] by blast
    have "arrays w' = arrays w" "arrays v' = arrays v"
      using create_bundle_arrays [of net addResource "locale" "Some rid" errors w]
        create_bundle_arrays [of net addResource "locale" "Some rid" errors v] w'(1) v'(1)
      by simp_all
    moreover have "objects w' errors = objects v' errors"
      using w'(2) v'(2) assms to_string_arrays [OF assms(1)] by simp
    ultimately show ?thesis
      using Some w'(1) v'(1) assms(1) by simp
  qed
qed

lemma gen_next_arrays: "arrays (snd (snd (gen_next net addResource g w))) = arrays w"
proof -
  have "\<And>l r w'. create_bundle net addResource l (first_id (gen_resourceIds g)) (gen_errors g) w
          = (r, w') \<Longrightarrow> arrays w' = arrays w"
    using create_bundle_arrays by (metis snd_conv)
  then show ?thesis
    by (cases "gen_state g") (auto simp: gen_next_def split: prod.splits sum.splits)
qed

lemma gen_next_frame:
  assumes "c \<noteq> gen_errors g"
  shows "objects (snd (snd (gen_next net addResource g w))) c = objects w c"
proof -
  have "\<And>l r w'. create_bundle net addResource l (first_id (gen_resourceIds g)) (gen_errors g) w
          = (r, w') \<Longrightarrow> objects w' c = objects w c"
    using create_bundle_frame [OF assms] by (metis snd_conv)
  then show ?thesis
    by (cases "gen_state g") (auto simp: gen_next_def split: prod.splits sum.splits)
qed

lemma gen_next_config:
  assumes "gen_next net addResource g w = (r, g', w')"
  shows "gen_errors g' = gen_errors g"
  using assms
  by (cases "gen_state g") (auto simp: gen_next_def split: prod.splits sum.splits if_splits)

lemma gen_next_agree:
  assumes "arrays w = arrays v" and "objects w (gen_errors g) = objects v (gen_errors g)"
  shows "\<exists>r g' w' v'. gen_next net addResource g w = (r, g', w')
           \<and> gen_next net addResource g v = (r, g', v')
           \<and> arrays w' = arrays v' \<and> objects w' (gen_errors g) = objects v' (gen_errors g)"
proof (cases "gen_state g")
  case SuspendedStart
  obtain r w' v' where
    "create_bundle net addResource (gen_locale g) (first_id (gen_resourceIds g)) (gen_errors g) w
       = (r, w')"
    "create_bundle net addResource (gen_locale g) (first_id (gen_resourceIds g)) (gen_errors g) v
       = (r, v')"
    "arrays w' = arrays v'" "objects w' (gen_errors g) = objects v' (gen_errors g)"
    using create_bundle_agree [OF assms] by blast
  then show ?thesis
    using SuspendedStart by (cases r) (simp_all add: gen_next_def)
next
  case (SuspendedYield i)
  show ?thesis
  proof (cases "i < length (gen_fallback_locales g)")
    case True
    obtain r w' v' where
      "create_bundle net addResource (gen_fallback_locales g ! i)
         (first_id (gen_resourceIds g)) (gen_errors g) w = (r, w')"
      "create_bundle net addResource (gen_fallback_locales g ! i)
         (first_id (gen_resourceIds g)) (gen_errors g) v = (r, v')"
      "arrays w' = arrays v'" "objects w' (gen_errors g) = objects v' (gen_errors g)"
      using create_bundle_agree [OF assms] by blast
    then show ?thesis
      using SuspendedYield True by (cases r) (simp_all add: gen_next_def)
  next
    case False
    then show ?thesis
      using SuspendedYield assms by (simp add: gen_next_def)
  qed
next
  case Completed
  then show ?thesis
    using assms by (simp add: gen_next_def)
qed

lemma drive_Suc:
  "gen_next net addResource g w = (r, g1, w1) \<Longrightarrow>
   drive net addResource (Suc n) g w
     = (r # fst (drive net addResource n g1 w1), fst (snd (drive net addResource n g1 w1)),
        snd (snd (drive net addResource n g1 w1)))"
  by (simp split: prod.splits)

lemma drive_both_first:
  "gen_next net addResource g1 w = (r, g1', w') \<Longrightarrow>
   drive_both net addResource (True # schedule) g1 g2 w
     = drive_both net addResource schedule g1' g2 w'"
  by simp

lemma drive_both_second:
  "gen_next net addResource g2 w = (r, g2', w') \<Longrightarrow>
   drive_both net addResource (False # schedule) g1 g2 w
     = drive_both net addResource schedule g1 g2' w'"
  by simp

lemma drive_agree:
  assumes "arrays w = arrays v" and "objects w (gen_errors g) = objects v (gen_errors g)"
  shows "fst (drive net addResource n g w) = fst (drive net addResource n g v)
       \<and> fst (snd (drive net addResource n g w)) = fst (snd (drive net addResource n g v))
       \<and> objects (snd (snd (drive net addResource n g w))) (gen_errors g)
           = objects (snd (snd (drive net addResource n g v))) (gen_errors g)"
  using assms
proof (induction n arbitrary: g w v)
  case 0
  then show ?case by simp
next
  case (Suc n)
  obtain r g' w' v' where step: "gen_next net addResource g w = (r, g', w')"
    "gen_next net addResource g v = (r, g', v')"
    "arrays w' = arrays v'" "objects w' (gen_errors g) = objects v' (gen_errors g)"
    using gen_next_agree [OF Suc.prems] by blast
  have c: "gen_errors g' = gen_errors g"
    using step(1) by (rule gen_next_config)
  show ?case
    using Suc.IH [of w' v' g'] step(3,4) c
    by (simp add: drive_Suc [OF step(1)] drive_Suc [OF step(2)] del: drive.simps)
qed

lemma drive_both_arrays:
  "arrays (snd (snd (drive_both net addResource schedule g1 g2 w))) = arrays w"
proof (induction schedule arbitrary: g1 g2 w)
  case Nil
  show ?case by simp
next
  case (Cons first schedule)
  obtain r1 g1' w1 where s1: "gen_next net addResource g1 w = (r1, g1', w1)"
    by (metis prod_cases3)
  obtain r2 g2' w2 where s2: "gen_next net addResource g2 w = (r2, g2', w2)"
    by (metis prod_cases3)
  have "arrays w1 = arrays w" "arrays w2 = arrays w"
    using gen_next_arrays [of net addResource g1 w] gen_next_arrays [of net addResource g2 w]
      s1 s2 by simp_all
  then show ?case
    using Cons.IH [of g1' g2 w1] Cons.IH [of g1 g2' w2]
    by (cases first)
       (simp_all add: drive_both_first [OF s1] drive_both_second [OF s2] del: drive_both.simps)
qed

lemma drive_both_independent:
  assumes "gen_errors g1 \<noteq> gen_errors g2"
  shows "objects (snd (snd (drive_both net addResource schedule g1 g2 w))) (gen_errors g1)
           = objects (snd (snd (drive net addResource (length (filter (\<lambda>b. b) schedule)) g1 w)))
               (gen_errors g1)
       \<and> objects (snd (snd (drive_both net addResource schedule g1 g2 w))) (gen_errors g2)
           = objects (snd (snd (drive net addResource (length (filter Not schedule)) g2 w)))
               (gen_errors g2)"
  using assms
proof (induction schedule arbitrary: g1 g2 w)
  case Nil
  show ?case by simp
next
  case (Cons first schedule)
  show ?case
  proof (cases first)
    case True
    obtain r g1' w' where step: "gen_next net addResource g1 w = (r, g1', w')"
      by (metis prod_cases3)
    have c: "gen_errors g1' = gen_errors g1"
      using step by (rule gen_next_config)
    have "arrays w' = arrays w" "objects w' (gen_errors g2) = objects w (gen_errors g2)"
      using gen_next_arrays [of net addResource g1 w]
        gen_next_frame [of "gen_errors g2" g1 net addResource w] Cons.prems step
      by simp_all
    then have other: "objects (snd (snd (drive net addResource (length (filter Not schedule)) g2 w')))
             (gen_errors g2)
        = objects (snd (snd (drive net addResource (length (filter Not schedule)) g2 w)))
             (gen_errors g2)"
      using drive_agree by blast
    show ?thesis
      using Cons.IH [of g1' g2 w'] Cons.prems c True other
      by (simp add: drive_both_first [OF step] drive_Suc [OF step]
            del: drive.simps drive_both.simps)
  next
    case False
    obtain r g2' w' where step: "gen_next net addResource g2 w = (r, g2', w')"
      by (metis prod_cases3)
    have c: "gen_errors g2' = gen_errors g2"
      using step by (rule gen_next_config)
    have "arrays w' = arrays w" "objects w' (gen_errors g1) = objects w (gen_errors g1)"
      using gen_next_arrays [of net addResource g2 w]
        gen_next_frame [of "gen_errors g1" g2 net addResource w] Cons.prems step
      by simp_all
    then have other: "objects (snd (snd (drive net addResource (length (filter (\<lambda>b. b) schedule)) g1 w')))
             (gen_errors g1)
        = objects (snd (snd (drive net addResource (length (filter (\<lambda>b. b) schedule)) g1 w)))
             (gen_errors g1)"
      using drive_agree by blast
    show ?thesis
      using Cons.IH [of g1 g2' w'] Cons.prems c False other
      by (simp add: drive_both_second [OF step] drive_Suc [OF step]
            del: drive.simps drive_both.simps)
  qed
qed

lemma create_bundle_rebinds:
  assumes "create_bundle net addResource locale resourceId errors w = (Inr b, w')"
  shows "\<exists>s. objects w' errors = Str s"
  using assms
  by (auto simp: create_bundle_def fetch_resource_def Let_def split: sum.splits option.splits)

lemma gen_next_rebinds:
  assumes "gen_next net addResource g w = (Yield b, g', w')"
  shows "\<exists>s. objects w' (gen_errors g) = Str s"
  using assms
  by (cases "gen_state g")
     (auto simp: gen_next_def split: prod.splits sum.splits if_splits
           dest: create_bundle_rebinds)

lemma init_localization_result:
  assumes "init_localization template locale fallbacks w0 = (r, w)"
  shows "bundles (dom_l10n r)
           = create_bundle_generator locale fallbacks (Suc (next_addr w0)) [template]"
    and "bundles (main r)
           = create_bundle_generator locale fallbacks (Suc (Suc (Suc (next_addr w0)))) [template]"
    and "dom_errors r = Ref (next_addr w0)"
    and "main_errors r = Ref (Suc (Suc (next_addr w0)))"
    and "objects w (Suc (next_addr w0)) = Ref (next_addr w0)"
    and "objects w (Suc (Suc (Suc (next_addr w0)))) = Ref (Suc (Suc (next_addr w0)))"
    and "arrays w (next_addr w0) = []"
    and "arrays w (Suc (Suc (next_addr w0))) = []"
  using assms
  by (auto simp: init_localization_def new_array_def new_object_def bundles_def Let_def)

section \<open>The resolved resource path\<close>

text \<open>
  C2. For a locale tag with a hyphen, \<open>pre @ ''-'' @ post\<close> with no hyphen in \<open>pre\<close>,
  and a template whose first placeholder \<^verbatim>\<open>{locale}\<close> stands between \<open>a\<close> and
  \<open>b\<close> (no occurrence of the placeholder starts inside \<open>a\<close>, that is, none lies
  in \<open>a\<close> followed by the placeholder without its last character), the resource
  fetcher requests the template with that placeholder replaced by the tag in which the
  first hyphen has become an underscore and nothing else has changed. A locale tag has
  no \<^verbatim>\<open>$\<close>, so the replacement text is taken as it is. For the tag
  \<^verbatim>\<open>en-US\<close> and the template \<^verbatim>\<open>loc/{locale}/main.ftl\<close> the path is
  \<^verbatim>\<open>loc/en_US/main.ftl\<close>.
\<close>

theorem fetch_resource_path_hyphen:
  assumes "locale_tag locale"
    and "locale = pre @ ''-'' @ post" and "CHR ''-'' \<notin> set pre"
    and "template = a @ ''{locale}'' @ b" and "\<not> sublist ''{locale}'' (a @ ''{locale'')"
  shows "resource_url locale template = a @ (pre @ ''_'' @ post) @ b
       \<and> fetched (snd (fetch_resource net locale (Some template) w))
           = fetched w @ [a @ (pre @ ''_'' @ post) @ b]"
proof -
  have norm: "js_replace locale ''-'' ''_'' = pre @ ''_'' @ post"
    using assms(2,3) normalize_first_hyphen by simp
  have "CHR ''$'' \<notin> set (pre @ ''_'' @ post)"
    using normalized_no_dollar [OF locale_tag_no_dollar [OF assms(1)]] norm by simp
  then have url: "resource_url locale template = a @ (pre @ ''_'' @ post) @ b"
    unfolding resource_url_def norm assms(4)
    using assms(5) by (intro js_replace_first) simp_all
  then show ?thesis
    by (simp add: fetch_resource_def Let_def split: sum.splits)
qed

theorem fetch_resource_path_hyphen_witness:
  "locale_tag ''en-US'' \<and> ''en-US'' = ''en'' @ ''-'' @ ''US'' \<and> CHR ''-'' \<notin> set ''en''
   \<and> ''loc/{locale}/main.ftl'' = ''loc/'' @ ''{locale}'' @ ''/main.ftl''
   \<and> \<not> sublist ''{locale}'' (''loc/'' @ ''{locale'')
   \<and> resource_url ''en-US'' ''loc/{locale}/main.ftl'' = ''loc/en_US/main.ftl''
   \<and> (\<forall>net w. fetched (snd (fetch_resource net ''en-US'' (Some ''loc/{locale}/main.ftl'') w))
        = fetched w @ [''loc/en_US/main.ftl''])"
proof -
  have h1: "locale_tag ''en-US''"
    by (simp add: locale_tag_def tag_char_def)
  have h2: "''en-US'' = ''en'' @ ''-'' @ ''US''" by simp
  have h3: "CHR ''-'' \<notin> set ''en''" by simp
  have h4: "''loc/{locale}/main.ftl'' = ''loc/'' @ ''{locale}'' @ ''/main.ftl''" by simp
  have h5: "\<not> sublist ''{locale}'' (''loc/'' @ ''{locale'')"
    by (simp add: sublist_code)
  show ?thesis
    using h1 h3 h5 fetch_resource_path_hyphen [OF h1 h2 h3 h4 h5] by simp
qed




section \<open>The sequence of bundles\<close>

text \<open>
  C3, as the code has it. For every primary locale, fallback list and network, a consumer
  that makes \<open>n\<close> requests gets the first \<open>n\<close> elements of this sequence: the bundle of
  the primary locale first, then the bundles of the fallback locales in the order of the
  list, one for each locale up to the first whose resource cannot be fetched; the error
  of that fetch, if there is such a locale; and from then on only the signal that the
  generator is exhausted. So the generator yields at most \<open>1 + length fallbacks\<close>
  bundles, a rejected fetch ends the sequence at its step, and in a run in which every
  resource can be fetched the bundles are exactly those of the primary locale and of
  every fallback, \<open>1 + length fallbacks\<close> of them. The generator function is called
  with a resource id, as \<^verbatim>\<open>init_localization\<close> does.
\<close>

theorem generator_sequence:
  "fst (drive net addResource n
          (create_bundle_generator locale fallbacks errors (rid # rest)) w)
     = take n (map (\<lambda>l. Yield (bundle_of net rid l))
                 (takeWhile (\<lambda>l. fetch_ok net (resource_url l rid)) (locale # fallbacks))
               @ rejection net rid
                   (dropWhile (\<lambda>l. fetch_ok net (resource_url l rid)) (locale # fallbacks))
               @ replicate n Done)
   \<and> ((\<forall>l \<in> set (locale # fallbacks). fetch_ok net (resource_url l rid)) \<longrightarrow>
        fst (drive net addResource (Suc (length fallbacks) + k)
               (create_bundle_generator locale fallbacks errors (rid # rest)) w)
          = map (\<lambda>l. Yield (bundle_of net rid l)) (locale # fallbacks) @ replicate k Done)"
proof (intro conjI impI)
  let ?g = "create_bundle_generator locale fallbacks errors (rid # rest)"
  have "gen_resourceIds ?g = rid # rest" and "remaining ?g = locale # fallbacks"
    by (simp_all add: create_bundle_generator_def remaining_def)
  then show "fst (drive net addResource n ?g w)
     = take n (map (\<lambda>l. Yield (bundle_of net rid l))
                 (takeWhile (\<lambda>l. fetch_ok net (resource_url l rid)) (locale # fallbacks))
               @ rejection net rid
                   (dropWhile (\<lambda>l. fetch_ok net (resource_url l rid)) (locale # fallbacks))
               @ replicate n Done)"
    using drive_results [of ?g rid rest net addResource n w] by simp
next
  assume "\<forall>l \<in> set (locale # fallbacks). fetch_ok net (resource_url l rid)"
  then show "fst (drive net addResource (Suc (length fallbacks) + k)
               (create_bundle_generator locale fallbacks errors (rid # rest)) w)
          = map (\<lambda>l. Yield (bundle_of net rid l)) (locale # fallbacks) @ replicate k Done"
    by (rule drive_all_fetched)
qed

theorem generator_sequence_witness:
  "fetch_ok (serve [(''loc/es_MX/main.ftl'', Response 200 (Inr ''hello = Hola'')),
                    (''loc/en_US/main.ftl'', Response 200 (Inr ''hello = Hello'')),
                    (''loc/en_GB/main.ftl'', Response 200 (Inr ''hello = Good day''))])
     (resource_url ''es-MX'' ''loc/{locale}/main.ftl'')
   \<and> fetch_ok (serve [(''loc/es_MX/main.ftl'', Response 200 (Inr ''hello = Hola'')),
                      (''loc/en_US/main.ftl'', Response 200 (Inr ''hello = Hello'')),
                      (''loc/en_GB/main.ftl'', Response 200 (Inr ''hello = Good day''))])
       (resource_url ''en-US'' ''loc/{locale}/main.ftl'')
   \<and> fetch_ok (serve [(''loc/es_MX/main.ftl'', Response 200 (Inr ''hello = Hola'')),
                      (''loc/en_US/main.ftl'', Response 200 (Inr ''hello = Hello'')),
                      (''loc/en_GB/main.ftl'', Response 200 (Inr ''hello = Good day''))])
       (resource_url ''en-GB'' ''loc/{locale}/main.ftl'')
   \<and> fst (drive (serve [(''loc/es_MX/main.ftl'', Response 200 (Inr ''hello = Hola'')),
                        (''loc/en_US/main.ftl'', Response 200 (Inr ''hello = Hello'')),
                        (''loc/en_GB/main.ftl'', Response 200 (Inr ''hello = Good day''))])
            (report []) (Suc (length [''en-US'', ''en-GB'']) + 2)
            (create_bundle_generator ''es-MX'' [''en-US'', ''en-GB''] 0
               (''loc/{locale}/main.ftl'' # []))
            empty_world)
     = [Yield (FluentBundle ''es-MX'' [FluentResource ''hello = Hola'']),
        Yield (FluentBundle ''en-US'' [FluentResource ''hello = Hello'']),
        Yield (FluentBundle ''en-GB'' [FluentResource ''hello = Good day'']),
        Done, Done]"
proof -
  let ?net = "serve [(''loc/es_MX/main.ftl'', Response 200 (Inr ''hello = Hola'')),
                     (''loc/en_US/main.ftl'', Response 200 (Inr ''hello = Hello'')),
                     (''loc/en_GB/main.ftl'', Response 200 (Inr ''hello = Good day''))]"
  have urls: "resource_url ''es-MX'' ''loc/{locale}/main.ftl'' = ''loc/es_MX/main.ftl''"
    "resource_url ''en-US'' ''loc/{locale}/main.ftl'' = ''loc/en_US/main.ftl''"
    "resource_url ''en-GB'' ''loc/{locale}/main.ftl'' = ''loc/en_GB/main.ftl''"
    by (simp_all add: resource_url_def js_replace_def)
  have h: "\<forall>l \<in> set (''es-MX'' # [''en-US'', ''en-GB'']).
             fetch_ok ?net (resource_url l ''loc/{locale}/main.ftl'')"
    by (simp add: urls fetch_ok_def fetch_outcome_def serve_def)
  have "fst (drive ?net (report []) (Suc (length [''en-US'', ''en-GB'']) + 2)
               (create_bundle_generator ''es-MX'' [''en-US'', ''en-GB''] 0
                  (''loc/{locale}/main.ftl'' # []))
               empty_world)
          = map (\<lambda>l. Yield (bundle_of ?net ''loc/{locale}/main.ftl'' l))
              (''es-MX'' # [''en-US'', ''en-GB'']) @ replicate 2 Done"
    using h generator_sequence [of ?net "report []" 0 "''es-MX''" "[''en-US'', ''en-GB'']" 0
        "''loc/{locale}/main.ftl''" "[]" empty_world 2]
    by blast
  then show ?thesis
    using h
    by (simp add: urls bundle_of_def fetch_outcome_def serve_def eval_nat_numeral
          del: drive.simps)
qed

text \<open>
  The claim as the specification states it, with exactly \<open>1 + length fallbacks\<close>
  elements in every run, fails: the request whose fetch is rejected ends the generator.
  Here the resource of \<^verbatim>\<open>en-US\<close> cannot be fetched; the consumer gets the primary
  bundle and the error, and the bundle of \<^verbatim>\<open>en-GB\<close> never.
\<close>

theorem generator_sequence_counterexample:
  "fst (drive (serve [(''loc/es_MX/main.ftl'', Response 200 (Inr ''hello = Hola'')),
                      (''loc/en_GB/main.ftl'', Response 200 (Inr ''hello = Good day''))])
          (report []) 5
          (create_bundle_generator ''es-MX'' [''en-US'', ''en-GB''] 0
             [''loc/{locale}/main.ftl''])
          empty_world)
     = [Yield (FluentBundle ''es-MX'' [FluentResource ''hello = Hola'']),
        Throw failed_to_fetch, Done, Done, Done]"
  by code_simp

section \<open>Failures of the fetch\<close>

text \<open>
  C4, as the code has it. When the fetch for the locale a request is at is rejected (the
  network fails, or the body cannot be read), the request settles to that error: it is
  not swallowed, the URL was requested once, and nothing else in the world has changed,
  so no resource of another locale was fetched; the error completes the generator,
  whose later requests report exhaustion and leave the world as it is. A response with
  an HTTP error status is no such failure: whatever the status, when the body can be
  read the request yields the bundle made from that body.
\<close>

theorem fetch_failure_propagates:
  assumes "next_locale g = Some l" and "gen_resourceIds g = rid # rest"
  shows "(fetch_outcome net (resource_url l rid) = Inl e \<longrightarrow>
            gen_next net addResource g w
              = (Throw e, g\<lparr>gen_state := Completed\<rparr>,
                 w\<lparr>fetched := fetched w @ [resource_url l rid]\<rparr>)
            \<and> drive net addResource n (g\<lparr>gen_state := Completed\<rparr>) w'
                = (replicate n Done, g\<lparr>gen_state := Completed\<rparr>, w'))
       \<and> (net (resource_url l rid) = Inr (Response st (Inr t)) \<longrightarrow>
            fst (gen_next net addResource g w) = Yield (FluentBundle l [FluentResource t])
            \<and> fetched (snd (snd (gen_next net addResource g w)))
                = fetched w @ [resource_url l rid])"
proof (intro conjI impI)
  assume rejected: "fetch_outcome net (resource_url l rid) = Inl e"
  show "gen_next net addResource g w
          = (Throw e, g\<lparr>gen_state := Completed\<rparr>,
             w\<lparr>fetched := fetched w @ [resource_url l rid]\<rparr>)"
    using assms rejected by (rule gen_next_reject)
  show "drive net addResource n (g\<lparr>gen_state := Completed\<rparr>) w'
          = (replicate n Done, g\<lparr>gen_state := Completed\<rparr>, w')"
    by (simp add: drive_completed)
next
  assume "net (resource_url l rid) = Inr (Response st (Inr t))"
  then have "fetch_outcome net (resource_url l rid) = Inr t"
    by (simp add: fetch_outcome_def)
  then obtain v where "gen_next net addResource g w
            = (Yield (FluentBundle l [FluentResource t]),
               g\<lparr>gen_state := advance (gen_state g)\<rparr>, v)"
    and "fetched v = fetched w @ [resource_url l rid]"
    using gen_next_text [OF assms, of net t addResource w] by blast
  then show "fst (gen_next net addResource g w) = Yield (FluentBundle l [FluentResource t])"
    and "fetched (snd (snd (gen_next net addResource g w)))
           = fetched w @ [resource_url l rid]"
    by simp_all
qed

theorem fetch_failure_propagates_witness:
  "next_locale (create_bundle_generator ''es-MX'' [''en-US'', ''en-GB''] 0
      [''loc/{locale}/main.ftl'']) = Some ''es-MX''
   \<and> fetch_outcome (serve []) (resource_url ''es-MX'' ''loc/{locale}/main.ftl'')
       = Inl failed_to_fetch
   \<and> fst (gen_next (serve []) (report [])
        (create_bundle_generator ''es-MX'' [''en-US'', ''en-GB''] 0 [''loc/{locale}/main.ftl''])
        empty_world) = Throw failed_to_fetch
   \<and> fetched (snd (snd (gen_next (serve []) (report [])
        (create_bundle_generator ''es-MX'' [''en-US'', ''en-GB''] 0 [''loc/{locale}/main.ftl''])
        empty_world))) = [''loc/es_MX/main.ftl'']
   \<and> fst (drive (serve []) (report []) 2
        ((create_bundle_generator ''es-MX'' [''en-US'', ''en-GB''] 0 [''loc/{locale}/main.ftl''])
           \<lparr>gen_state := Completed\<rparr>)
        (empty_world\<lparr>fetched := [''loc/es_MX/main.ftl'']\<rparr>)) = [Done, Done]
   \<and> fetched (snd (snd (drive (serve []) (report []) 2
        ((create_bundle_generator ''es-MX'' [''en-US'', ''en-GB''] 0 [''loc/{locale}/main.ftl''])
           \<lparr>gen_state := Completed\<rparr>)
        (empty_world\<lparr>fetched := [''loc/es_MX/main.ftl'']\<rparr>)))) = [''loc/es_MX/main.ftl'']
   \<and> serve [(''loc/es_MX/main.ftl'', Response 500 (Inr ''Internal Server Error''))]
        (resource_url ''es-MX'' ''loc/{locale}/main.ftl'')
       = Inr (Response 500 (Inr ''Internal Server Error''))
   \<and> fst (gen_next
        (serve [(''loc/es_MX/main.ftl'', Response 500 (Inr ''Internal Server Error''))])
        (report [])
        (create_bundle_generator ''es-MX'' [''en-US'', ''en-GB''] 0 [''loc/{locale}/main.ftl''])
        empty_world)
       = Yield (FluentBundle ''es-MX'' [FluentResource ''Internal Server Error''])"
proof -
  let ?g = "create_bundle_generator ''es-MX'' [''en-US'', ''en-GB''] 0
              [''loc/{locale}/main.ftl'']"
  let ?down = "serve [(''loc/es_MX/main.ftl'', Response 500 (Inr ''Internal Server Error''))]"
  have url: "resource_url ''es-MX'' ''loc/{locale}/main.ftl'' = ''loc/es_MX/main.ftl''"
    by (simp add: resource_url_def js_replace_def)
  have h1: "next_locale ?g = Some ''es-MX''"
    by (simp add: next_locale_def create_bundle_generator_def)
  have h2: "gen_resourceIds ?g = ''loc/{locale}/main.ftl'' # []"
    by (simp add: create_bundle_generator_def)
  have h3: "fetch_outcome (serve []) (resource_url ''es-MX'' ''loc/{locale}/main.ftl'')
              = Inl failed_to_fetch"
    by (simp add: fetch_outcome_def serve_def)
  have h4: "?down (resource_url ''es-MX'' ''loc/{locale}/main.ftl'')
              = Inr (Response 500 (Inr ''Internal Server Error''))"
    by (simp add: url serve_def)
  have rejected: "gen_next (serve []) (report []) ?g empty_world
      = (Throw failed_to_fetch, ?g\<lparr>gen_state := Completed\<rparr>,
         empty_world\<lparr>fetched := fetched empty_world
            @ [resource_url ''es-MX'' ''loc/{locale}/main.ftl'']\<rparr>)"
    and later: "drive (serve []) (report []) 2 (?g\<lparr>gen_state := Completed\<rparr>)
        (empty_world\<lparr>fetched := [''loc/es_MX/main.ftl'']\<rparr>)
      = (replicate 2 Done, ?g\<lparr>gen_state := Completed\<rparr>,
         empty_world\<lparr>fetched := [''loc/es_MX/main.ftl'']\<rparr>)"
    using h3 fetch_failure_propagates [OF h1 h2, where net = "serve []"
        and e = failed_to_fetch and addResource = "report []" and w = empty_world and n = 2
        and w' = "empty_world\<lparr>fetched := [''loc/es_MX/main.ftl'']\<rparr>"]
    by blast+
  have parsed: "fst (gen_next ?down (report []) ?g empty_world)
      = Yield (FluentBundle ''es-MX'' [FluentResource ''Internal Server Error''])"
    using h4 fetch_failure_propagates [OF h1 h2, where net = ?down and st = 500
        and t = "''Internal Server Error''" and addResource = "report []"
        and w = empty_world]
    by blast
  show ?thesis
    unfolding rejected later parsed
    using h1 h3 h4 by (simp add: url empty_world_def numeral_2_eq_2)
qed

text \<open>
  The claim as the specification states it also names an HTTP failure, and that does
  not propagate: \<^verbatim>\<open>fetch\<close> fulfils its promise for every status, the code does
  not look at the status, and the body of the error page is parsed as the resource.
\<close>

theorem http_failure_counterexample:
  "fst (gen_next (serve [(''loc/es_MX/main.ftl'', Response 404 (Inr ''Not Found''))])
          (report [])
          (create_bundle_generator ''es-MX'' [''en-US'', ''en-GB''] 0
             [''loc/{locale}/main.ftl''])
          empty_world)
     = Yield (FluentBundle ''es-MX'' [FluentResource ''Not Found''])"
  by code_simp

section \<open>Laziness\<close>

text \<open>
  C5. Making the generator fetches nothing, and each request issues at most one fetch,
  for the locale the generator is at: after \<open>n\<close> requests the URLs fetched are those of
  the first \<open>m\<close> locales of the sequence, primary first, for some \<open>m \<le> n\<close>. So after
  the first request, whether its fetch succeeded or not, no resource of a fallback locale
  has been fetched, and the resource of the \<open>k\<close>-th fallback is fetched in the request
  for its bundle and not before.
\<close>

theorem fetches_follow_requests:
  "\<exists>m\<le>n. fetched (snd (snd (drive net addResource n
              (create_bundle_generator locale fallbacks errors (rid # rest)) w)))
           = fetched w @ map (\<lambda>l. resource_url l rid) (take m (locale # fallbacks))"
proof -
  let ?g = "create_bundle_generator locale fallbacks errors (rid # rest)"
  have "gen_resourceIds ?g = rid # rest" and "remaining ?g = locale # fallbacks"
    by (simp_all add: create_bundle_generator_def remaining_def)
  then show ?thesis
    using drive_fetched [of ?g rid rest n net addResource w] by simp
qed

theorem fetches_follow_requests_witness:
  "(\<exists>m\<le>1. fetched (snd (snd (drive
        (serve [(''loc/es_MX/main.ftl'', Response 200 (Inr ''hello = Hola'')),
                (''loc/en_US/main.ftl'', Response 200 (Inr ''hello = Hello''))])
        (report []) 1
        (create_bundle_generator ''es-MX'' [''en-US''] 0 (''loc/{locale}/main.ftl'' # []))
        empty_world)))
      = fetched empty_world
        @ map (\<lambda>l. resource_url l ''loc/{locale}/main.ftl'') (take m (''es-MX'' # [''en-US''])))
   \<and> fetched (snd (snd (drive
        (serve [(''loc/es_MX/main.ftl'', Response 200 (Inr ''hello = Hola'')),
                (''loc/en_US/main.ftl'', Response 200 (Inr ''hello = Hello''))])
        (report []) 1
        (create_bundle_generator ''es-MX'' [''en-US''] 0 (''loc/{locale}/main.ftl'' # []))
        empty_world)))
      = [''loc/es_MX/main.ftl'']"
proof -
  have "fetched (snd (snd (drive
        (serve [(''loc/es_MX/main.ftl'', Response 200 (Inr ''hello = Hola'')),
                (''loc/en_US/main.ftl'', Response 200 (Inr ''hello = Hello''))])
        (report []) 1
        (create_bundle_generator ''es-MX'' [''en-US''] 0 (''loc/{locale}/main.ftl'' # []))
        empty_world)))
      = [''loc/es_MX/main.ftl'']"
    by code_simp
  then show ?thesis
    using fetches_follow_requests [of 1
        "serve [(''loc/es_MX/main.ftl'', Response 200 (Inr ''hello = Hola'')),
                (''loc/en_US/main.ftl'', Response 200 (Inr ''hello = Hello''))]"
        "report []" "''es-MX''" "[''en-US'']" 0 "''loc/{locale}/main.ftl''" "[]" empty_world]
    by blast
qed

section \<open>The locale of a bundle\<close>

text \<open>
  C9. A bundle that \<^verbatim>\<open>create_bundle\<close> returns was constructed with the locale tag
  as it was passed in; the tag with the underscore exists inside
  \<^verbatim>\<open>fetch_resource\<close> only and shows in the URL that was fetched.
\<close>

theorem bundle_keeps_locale_tag:
  assumes "create_bundle net addResource locale (Some rid) errors w = (Inr b, w')"
  shows "bundle_locale b = locale
       \<and> fetched w' = fetched w @ [js_replace rid ''{locale}'' (js_replace locale ''-'' ''_'')]"
  using assms
  by (auto simp: create_bundle_def fetch_resource_def resource_url_def Let_def
           split: sum.splits)

theorem bundle_keeps_locale_tag_witness:
  "fst (create_bundle (serve [(''loc/en_US/main.ftl'', Response 200 (Inr ''hello = Hello''))])
          (report []) ''en-US'' (Some ''loc/{locale}/main.ftl'') 0 empty_world)
     = Inr (FluentBundle ''en-US'' [FluentResource ''hello = Hello''])
   \<and> bundle_locale (FluentBundle ''en-US'' [FluentResource ''hello = Hello'']) = ''en-US''
   \<and> fetched (snd (create_bundle
          (serve [(''loc/en_US/main.ftl'', Response 200 (Inr ''hello = Hello''))])
          (report []) ''en-US'' (Some ''loc/{locale}/main.ftl'') 0 empty_world))
     = [''loc/en_US/main.ftl'']"
proof -
  let ?run = "create_bundle
          (serve [(''loc/en_US/main.ftl'', Response 200 (Inr ''hello = Hello''))])
          (report []) ''en-US'' (Some ''loc/{locale}/main.ftl'') 0 empty_world"
  have f: "fst ?run = Inr (FluentBundle ''en-US'' [FluentResource ''hello = Hello''])"
    by code_simp
  then have h: "?run = (Inr (FluentBundle ''en-US'' [FluentResource ''hello = Hello'']), snd ?run)"
    by (metis prod.collapse)
  show ?thesis
    using f bundle_keeps_locale_tag [OF h]
    by (simp add: js_replace_def empty_world_def)
qed

section \<open>The error accumulators\<close>

text \<open>
  C1. The claim holds for the bundles: a resource the engine reports errors for still
  yields its bundle, and the generator goes on to the next locale. It does not hold for
  the accumulator. \<^verbatim>\<open>errors.entries += bundle.addResource(resource)\<close> adds two
  arrays with \<^verbatim>\<open>+\<close>, which concatenates their strings: after two bundles with one
  error each, \<^verbatim>\<open>entries\<close> is a single string in which the two error texts run
  together, and the array that \<^verbatim>\<open>init_localization\<close> returned as
  \<^verbatim>\<open>dom_errors\<close> is still empty.
\<close>

theorem create_bundle_errors_become_text:
  "(case example_init of
      (r, w) \<Rightarrow>
        (case drive example_net example_engine 2 (bundles (dom_l10n r)) w of
           (rs, g, w') \<Rightarrow> (rs, dom_errors r, arrays w' 0, objects w' (gen_errors g))))
   = ([Yield (FluentBundle ''es-MX'' [FluentResource ''hola = Hola'']),
       Yield (FluentBundle ''en-US'' [FluentResource ''hello = Hello''])],
      Ref 0, [],
      Str (''Error: Attempt to override an existing message: hola''
           @ ''Error: Attempt to override an existing message: hello''))"
  by code_simp

text \<open>
  C6. \<^verbatim>\<open>init_localization\<close> makes two generators with the same locale, fallback list
  and resource id and with two different error containers. However the requests of the
  DOM translator and of the formatter interleave, the container of each generator ends
  with the value it would have if the other generator had never run: nothing recorded
  for one of them reaches the other, and the arrays of the store stay as they are.
\<close>

theorem accumulators_independent:
  assumes "init_localization template locale fallbacks w0 = (r, w)"
  shows "gen_errors (bundles (dom_l10n r)) \<noteq> gen_errors (bundles (main r))
       \<and> gen_locale (bundles (dom_l10n r)) = locale \<and> gen_locale (bundles (main r)) = locale
       \<and> gen_fallback_locales (bundles (dom_l10n r)) = fallbacks
       \<and> gen_fallback_locales (bundles (main r)) = fallbacks
       \<and> gen_resourceIds (bundles (dom_l10n r)) = [template]
       \<and> gen_resourceIds (bundles (main r)) = [template]
       \<and> objects (snd (snd (drive_both net addResource schedule
                      (bundles (dom_l10n r)) (bundles (main r)) w)))
             (gen_errors (bundles (main r)))
           = objects (snd (snd (drive net addResource (length (filter Not schedule))
                      (bundles (main r)) w)))
               (gen_errors (bundles (main r)))
       \<and> objects (snd (snd (drive_both net addResource schedule
                      (bundles (dom_l10n r)) (bundles (main r)) w)))
             (gen_errors (bundles (dom_l10n r)))
           = objects (snd (snd (drive net addResource (length (filter (\<lambda>b. b) schedule))
                      (bundles (dom_l10n r)) w)))
               (gen_errors (bundles (dom_l10n r)))
       \<and> arrays (snd (snd (drive_both net addResource schedule
                      (bundles (dom_l10n r)) (bundles (main r)) w)))
           = arrays w"
proof -
  note init = init_localization_result [OF assms]
  have config: "gen_errors (bundles (dom_l10n r)) \<noteq> gen_errors (bundles (main r))"
    "gen_locale (bundles (dom_l10n r)) = locale" "gen_locale (bundles (main r)) = locale"
    "gen_fallback_locales (bundles (dom_l10n r)) = fallbacks"
    "gen_fallback_locales (bundles (main r)) = fallbacks"
    "gen_resourceIds (bundles (dom_l10n r)) = [template]"
    "gen_resourceIds (bundles (main r)) = [template]"
    by (simp_all add: init(1,2) create_bundle_generator_def)
  show ?thesis
    using config drive_both_independent [OF config(1), of net addResource schedule w]
    by (simp add: drive_both_arrays)
qed

theorem accumulators_independent_witness:
  "example_init = (fst example_init, snd example_init)
   \<and> gen_errors (bundles (dom_l10n (fst example_init))) = 1
   \<and> gen_errors (bundles (main (fst example_init))) = 3
   \<and> objects (snd (snd (drive_both example_net example_engine [True, False, True]
                  (bundles (dom_l10n (fst example_init))) (bundles (main (fst example_init)))
                  (snd example_init)))) 3
       = Str ''Error: Attempt to override an existing message: hola''
   \<and> objects (snd (snd (drive example_net example_engine
                  (length (filter Not [True, False, True]))
                  (bundles (main (fst example_init))) (snd example_init)))) 3
       = Str ''Error: Attempt to override an existing message: hola''"
proof -
  have h: "init_localization ''loc/{locale}/main.ftl'' ''es-MX'' [''en-US''] empty_world
             = (fst example_init, snd example_init)"
    by (simp add: example_init_def)
  have cd: "gen_errors (bundles (dom_l10n (fst example_init))) = 1"
    and cm: "gen_errors (bundles (main (fst example_init))) = 3"
    by code_simp+
  have "objects (snd (snd (drive example_net example_engine
                  (length (filter Not [True, False, True]))
                  (bundles (main (fst example_init))) (snd example_init)))) 3
       = Str ''Error: Attempt to override an existing message: hola''"
    by code_simp
  then show ?thesis
    using cd cm
      accumulators_independent [OF h, of example_net example_engine "[True, False, True]"]
    by simp
qed

text \<open>
  C8. The values returned as \<^verbatim>\<open>dom_errors\<close> and \<^verbatim>\<open>main_errors\<close> are the
  values of the two \<^verbatim>\<open>entries\<close> properties when \<^verbatim>\<open>init_localization\<close>
  returns: references to two different, empty arrays. No request to a generator writes
  to an array; a request that constructs a bundle assigns a string to
  \<^verbatim>\<open>entries\<close> instead. So the two arrays are empty after every run of the two
  generators.
\<close>

theorem returned_arrays_never_modified:
  assumes "init_localization template locale fallbacks w0 = (r, w)"
  shows "\<exists>a b. a \<noteq> b \<and> dom_errors r = Ref a \<and> main_errors r = Ref b
           \<and> objects w (gen_errors (bundles (dom_l10n r))) = dom_errors r
           \<and> objects w (gen_errors (bundles (main r))) = main_errors r
           \<and> arrays w a = [] \<and> arrays w b = []
           \<and> arrays (snd (snd (drive_both net addResource schedule
                      (bundles (dom_l10n r)) (bundles (main r)) w))) a = []
           \<and> arrays (snd (snd (drive_both net addResource schedule
                      (bundles (dom_l10n r)) (bundles (main r)) w))) b = []
           \<and> (\<forall>g v. arrays (snd (snd (gen_next net addResource g v))) = arrays v)
           \<and> (\<forall>g v b g' v'. gen_next net addResource g v = (Yield b, g', v')
                  \<longrightarrow> (\<exists>s. objects v' (gen_errors g) = Str s))"
proof -
  note init = init_localization_result [OF assms]
  have "gen_errors (bundles (dom_l10n r)) = Suc (next_addr w0)"
    "gen_errors (bundles (main r)) = Suc (Suc (Suc (next_addr w0)))"
    by (simp_all add: init(1,2) create_bundle_generator_def)
  then have now: "objects w (gen_errors (bundles (dom_l10n r))) = dom_errors r"
    "objects w (gen_errors (bundles (main r))) = main_errors r"
    using init(3-6) by simp_all
  have apart: "next_addr w0 \<noteq> Suc (Suc (next_addr w0))" by simp
  have rebound: "\<forall>g v b g' v'. gen_next net addResource g v = (Yield b, g', v')
                  \<longrightarrow> (\<exists>s. objects v' (gen_errors g) = Str s)"
    using gen_next_rebinds by blast
  show ?thesis
    apply (rule exI [of _ "next_addr w0"])
    apply (rule exI [of _ "Suc (Suc (next_addr w0))"])
    using now apart rebound init(3,4,7,8)
    apply (simp add: gen_next_arrays drive_both_arrays)
    done
qed

theorem returned_arrays_never_modified_witness:
  "example_init = (fst example_init, snd example_init)
   \<and> dom_errors (fst example_init) = Ref 0 \<and> main_errors (fst example_init) = Ref 2
   \<and> arrays (snd (snd (drive_both example_net example_engine [True, False, True]
                 (bundles (dom_l10n (fst example_init))) (bundles (main (fst example_init)))
                 (snd example_init)))) 0 = []
   \<and> arrays (snd (snd (drive_both example_net example_engine [True, False, True]
                 (bundles (dom_l10n (fst example_init))) (bundles (main (fst example_init)))
                 (snd example_init)))) 2 = []"
proof -
  have h: "init_localization ''loc/{locale}/main.ftl'' ''es-MX'' [''en-US''] empty_world
             = (fst example_init, snd example_init)"
    by (simp add: example_init_def)
  have d: "dom_errors (fst example_init) = Ref 0"
    and m: "main_errors (fst example_init) = Ref 2"
    by code_simp+
  show ?thesis
    using d m
      returned_arrays_never_modified [OF h, of example_net example_engine "[True, False, True]"]
    by auto
qed

section \<open>Locale detection\<close>

text \<open>
  C7, as the code has it. \<^verbatim>\<open>get_user_locales\<close> returns what the library returns.
  A fallback that is not the empty string is passed on as \<^verbatim>\<open>fallbackLocale\<close>, with
  \<^verbatim>\<open>useFallbackLocale\<close> set; without a fallback, and with the empty string, the
  library is called with no argument.
\<close>

theorem get_user_locales_forwards:
  assumes "fallback \<noteq> []"
  shows "get_user_locales getUserLocales (Some fallback)
           = getUserLocales (Some \<lparr>fallbackLocale = fallback, useFallbackLocale = True\<rparr>)
       \<and> get_user_locales getUserLocales None = getUserLocales None
       \<and> get_user_locales getUserLocales (Some []) = getUserLocales None"
  using assms by (simp add: get_user_locales_def truthy_def)

text \<open>
  With the library replaced by the function that returns its argument, the result is the
  argument of the call.
\<close>

theorem get_user_locales_forwards_witness:
  "''en-US'' \<noteq> []
   \<and> get_user_locales id (Some ''en-US'')
       = Some \<lparr>fallbackLocale = ''en-US'', useFallbackLocale = True\<rparr>
   \<and> get_user_locales id None = None"
proof -
  have h: "''en-US'' \<noteq> []" by simp
  show ?thesis
    using h get_user_locales_forwards [OF h, of id] by simp
qed

text \<open>
  The claim as the specification states it, for every call with a fallback supplied,
  fails for the empty string: \<^verbatim>\<open>if (fallback)\<close> is false and no option is passed.
\<close>

theorem get_user_locales_empty_counterexample:
  "get_user_locales id (Some []) = None"
  by (simp add: get_user_locales_def truthy_def)

end
